theory Spec2Isabelle
  imports Complex_Main
begin

section \<open>Python values, errors and dictionaries\<close>

text \<open>
  The model follows \<^verbatim>\<open>tools/generate_features.py\<close>. Python floats are modelled as
  \<^typ>\<open>real\<close>, Python integers as \<^typ>\<open>int\<close>. An exception that leaves a function is
  the \<open>Inl\<close> branch of its result. A \<^verbatim>\<open>dict\<close> is an association list in insertion
  order; its keys are pairwise distinct.
\<close>

datatype py_error = KeyError | ValueError | ZeroDivisionError | IndexError | TypeError

type_synonym ('k, 'v) dict = "('k \<times> 'v) list"

definition dict_keys :: "('k, 'v) dict \<Rightarrow> 'k list" where
  "dict_keys d = map fst d"

definition dict_get :: "('k, 'v) dict \<Rightarrow> 'k \<Rightarrow> py_error + 'v" where
  \<comment> \<open>\<^verbatim>\<open>d[k]\<close>\<close>
  "dict_get d k = (case map_of d k of None \<Rightarrow> Inl KeyError | Some v \<Rightarrow> Inr v)"

definition dict_pop :: "('k, 'v) dict \<Rightarrow> 'k \<Rightarrow> py_error + ('k, 'v) dict" where
  \<comment> \<open>\<^verbatim>\<open>d.pop(k)\<close>, the popped value dropped\<close>
  "dict_pop d k =
     (if k \<in> set (dict_keys d) then Inr (filter (\<lambda>kv. fst kv \<noteq> k) d) else Inl KeyError)"

fun dict_set :: "('k, 'v) dict \<Rightarrow> 'k \<Rightarrow> 'v \<Rightarrow> ('k, 'v) dict" where
  \<comment> \<open>\<^verbatim>\<open>d[k] = v\<close>: an existing key keeps its place, a new key goes last\<close>
  "dict_set [] k v = [(k, v)]"
| "dict_set ((k', v') # d) k v =
     (if k' = k then (k, v) # d else (k', v') # dict_set d k v)"

definition dict_update :: "('k, 'v) dict \<Rightarrow> ('k, 'v) dict \<Rightarrow> ('k, 'v) dict" where
  \<comment> \<open>\<^verbatim>\<open>d.update(e)\<close>\<close>
  "dict_update d e = foldl (\<lambda>acc kv. dict_set acc (fst kv) (snd kv)) d e"

section \<open>Sources, catalog candidates and the collaborators\<close>

type_synonym radec = "real \<times> real"

datatype fval = FNum real | FInt int | FList "real list"

record source =
  radec_geojson :: radec
  features :: "(string, fval) dict"

text \<open>
  A record of the star catalog. The projection of the query asks for the magnitude, the
  colour and the coordinates; the first two may be absent from a record.
\<close>

record candidate =
  phot_g_mean_mag :: "real option"
  bp_rp :: "real option"
  coordinates :: radec

text \<open>
  The functions of \<^verbatim>\<open>astropy\<close> and \<^verbatim>\<open>scope.utils\<close> that the filter calls are
  parameters of the model: \<open>separation a b\<close> is \<^verbatim>\<open>a.separation(b)\<close> in arc seconds.
\<close>

record astro =
  separation :: "radec \<Rightarrow> radec \<Rightarrow> real"
  TychoBVfromGaia :: "real \<Rightarrow> real \<Rightarrow> real \<times> real"
  exclude_radius :: "real \<Rightarrow> real \<Rightarrow> real"

text \<open>
  The catalog service: one cone-search request for a batch of id-position pairs gives a
  dictionary from the ids to the records found. The source looks the answer up under
  \<^verbatim>\<open>str(id)\<close>; since \<^verbatim>\<open>str\<close> is injective on integers, the model keys the answer by the id.
  The progress messages that the source prints are left out.
\<close>

type_synonym kowalski = "(int \<times> radec) list \<Rightarrow> (int, candidate list) dict"

section \<open>The bright-star filter\<close>

definition shift180 :: "radec \<Rightarrow> radec" where
  \<comment> \<open>\<^verbatim>\<open>coords[:, 0] += 180.0\<close>\<close>
  "shift180 p = (fst p + 180, snd p)"

fun argmin :: "real list \<Rightarrow> nat" where
  \<comment> \<open>\<^verbatim>\<open>np.argmin\<close>: the first index of the least element\<close>
  "argmin [] = 0"
| "argmin [x] = 0"
| "argmin (x # y # ys) = (let j = argmin (y # ys) in if x \<le> (y # ys) ! j then 0 else Suc j)"

definition delete_at :: "nat \<Rightarrow> 'a list \<Rightarrow> 'a list" where
  \<comment> \<open>\<^verbatim>\<open>xs.pop(i)\<close> and \<^verbatim>\<open>np.delete(xs, i)\<close>\<close>
  "delete_at i xs = take i xs @ drop (Suc i) xs"

definition all_separations :: "astro \<Rightarrow> source \<Rightarrow> candidate list \<Rightarrow> real list" where
  "all_separations A val single_result =
     map (\<lambda>x. separation A (shift180 (coordinates x)) (shift180 (radec_geojson val)))
       single_result"

definition xmatch_source :: "astro \<Rightarrow> real \<Rightarrow> source \<Rightarrow> candidate list \<Rightarrow> candidate option" where
  \<comment> \<open>the closest record, when it is within the match radius\<close>
  "xmatch_source A xmatch_radius_arcsec val single_result =
     (let seps = all_separations A val single_result;
          drop_source = argmin seps
      in if seps ! drop_source < xmatch_radius_arcsec
         then Some (single_result ! drop_source) else None)"

definition remaining :: "astro \<Rightarrow> real \<Rightarrow> source \<Rightarrow> candidate list \<Rightarrow> candidate list" where
  \<comment> \<open>\<^verbatim>\<open>single_result\<close> after the \<^verbatim>\<open>pop\<close> of the matched record\<close>
  "remaining A xmatch_radius_arcsec val single_result =
     (let seps = all_separations A val single_result;
          drop_source = argmin seps
      in if seps ! drop_source < xmatch_radius_arcsec
         then delete_at drop_source single_result else single_result)"

definition xmatch_coord :: "astro \<Rightarrow> real \<Rightarrow> source \<Rightarrow> candidate list \<Rightarrow> radec" where
  "xmatch_coord A xmatch_radius_arcsec val single_result =
     (case xmatch_source A xmatch_radius_arcsec val single_result of
        Some x \<Rightarrow> shift180 (coordinates x)
      | None \<Rightarrow> shift180 (radec_geojson val))"

definition excl_radius :: "astro \<Rightarrow> candidate \<Rightarrow> real" where
  \<comment> \<open>the \<^verbatim>\<open>try\<close> block: a missing key gives radius 0\<close>
  "excl_radius A src =
     (case phot_g_mean_mag src of
        None \<Rightarrow> 0
      | Some g \<Rightarrow>
          (case bp_rp src of
             None \<Rightarrow> 0
           | Some c \<Rightarrow> (case TychoBVfromGaia A g c of (B, V) \<Rightarrow> exclude_radius A B V)))"

fun scan_candidates :: "astro \<Rightarrow> radec \<Rightarrow> candidate list \<Rightarrow> bool" where
  \<comment> \<open>the inner \<^verbatim>\<open>for\<close> loop; \<open>True\<close> when it reaches \<^verbatim>\<open>id_dct_keep.pop(id)\<close>\<close>
  "scan_candidates A ref [] = False"
| "scan_candidates A ref (src # rest) =
     (if excl_radius A src > 0 \<and>
         excl_radius A src > separation A ref (shift180 (coordinates src))
      then True
      else scan_candidates A ref rest)"

definition too_close :: "astro \<Rightarrow> real \<Rightarrow> source \<Rightarrow> candidate list \<Rightarrow> bool" where
  \<comment> \<open>the body of the loop over the ids, for one id\<close>
  "too_close A xmatch_radius_arcsec val single_result =
     (if length single_result > 0
      then scan_candidates A (xmatch_coord A xmatch_radius_arcsec val single_result)
             (remaining A xmatch_radius_arcsec val single_result)
      else False)"

definition n_iterations :: "nat \<Rightarrow> int \<Rightarrow> int" where
  "n_iterations n_sources limit =
     (if int n_sources mod limit \<noteq> 0 then int n_sources div limit + 1
      else int n_sources div limit)"

definition id_slice :: "(int, source) dict \<Rightarrow> nat \<Rightarrow> nat \<Rightarrow> (int \<times> source) list" where
  \<comment> \<open>\<^verbatim>\<open>keys[i * limit : min(n_sources, (i + 1) * limit)]\<close> for a positive limit, each key
    with the value \<^verbatim>\<open>id_dct[x]\<close> that the request reads\<close>
  "id_slice id_dct limit i =
     take (min (length id_dct) ((i + 1) * limit) - i * limit) (drop (i * limit) id_dct)"

definition batch_query :: "(int \<times> source) list \<Rightarrow> (int \<times> radec) list" where
  \<comment> \<open>the \<^verbatim>\<open>radec\<close> dictionary of one request\<close>
  "batch_query slice = map (\<lambda>kv. (fst kv, shift180 (radec_geojson (snd kv)))) slice"

definition gaia_queries :: "(int, source) dict \<Rightarrow> int \<Rightarrow> (int \<times> radec) list list" where
  \<comment> \<open>the requests of the batch loop, in order; none when \<open>n_iterations\<close> is not positive\<close>
  "gaia_queries id_dct limit =
     map (\<lambda>i. batch_query (id_slice id_dct (nat limit) i))
       [0 ..< nat (n_iterations (length id_dct) limit)]"

definition gaia_results_dct :: "kowalski \<Rightarrow> (int, source) dict \<Rightarrow> int \<Rightarrow> (int, candidate list) dict" where
  "gaia_results_dct K id_dct limit =
     foldl (\<lambda>acc q. dict_update acc (K q)) [] (gaia_queries id_dct limit)"

fun compare_loop ::
  "astro \<Rightarrow> real \<Rightarrow> (int, source) dict \<Rightarrow> (int, candidate list) dict \<Rightarrow> int list \<Rightarrow>
   (int, source) dict \<Rightarrow> py_error + (int, source) dict" where
  "compare_loop A xr id_dct results [] keep = Inr keep"
| "compare_loop A xr id_dct results (i # ids) keep =
     (case dict_get id_dct i of
        Inl e \<Rightarrow> Inl e
      | Inr val \<Rightarrow>
          (case dict_get results i of
             Inl e \<Rightarrow> Inl e
           | Inr single_result \<Rightarrow>
               if too_close A xr val single_result
               then (case dict_pop keep i of
                       Inl e \<Rightarrow> Inl e
                     | Inr keep' \<Rightarrow> compare_loop A xr id_dct results ids keep')
               else compare_loop A xr id_dct results ids keep))"

definition drop_close_bright_stars ::
  "astro \<Rightarrow> kowalski \<Rightarrow> real \<Rightarrow> int \<Rightarrow> (int, source) dict \<Rightarrow> py_error + (int, source) dict" where
  "drop_close_bright_stars A K xmatch_radius_arcsec limit id_dct =
     (if limit = 0 then Inl ZeroDivisionError
      else compare_loop A xmatch_radius_arcsec id_dct (gaia_results_dct K id_dct limit)
             (dict_keys id_dct) id_dct)"

text \<open>
  A catalog service whose answer for an id depends only on the id and the position sent
  with it (\<open>None\<close>: the id is missing from the answer). Two runs of the filter see the
  same catalog responses when they use the same such service.
\<close>

definition cone_service :: "(int \<Rightarrow> radec \<Rightarrow> candidate list option) \<Rightarrow> kowalski" where
  "cone_service f q =
     concat (map (\<lambda>ic. case f (fst ic) (snd ic) of None \<Rightarrow> [] | Some r \<Rightarrow> [(fst ic, r)]) q)"

section \<open>Light curves and the feature loop\<close>

text \<open>
  The value under a key of a record of the light-curve service: a number, a null or a
  string. A point of a light curve is a dictionary that may lack any of the four keys that
  the source reads.
\<close>

datatype jval = JNum real | JNull | JStr string

record lc_point =
  catflags :: "jval option"
  hjd :: "jval option"
  mag :: "jval option"
  magerr :: "jval option"

record lightcurve =
  lc_id :: int
  lc_data :: "lc_point list"
  lc_filter :: int

type_synonym tme = "real list \<times> real list \<times> real list"

type_synonym row = "jval \<times> jval \<times> jval"

text \<open>
  The services and library functions that
  \<^verbatim>\<open>generate_features\<close> calls are parameters: \<open>get_ids_loop\<close> gives \<^verbatim>\<open>lst[0]\<close> for a field,
  CCD and quadrant. The field, CCD and quadrant are those of the run, whether given or read
  from the quadrant file. The result of a run is the list of the calls made to services and
  files, in order, with the table or the exception. The conversion of the id columns of the
  table to \<^verbatim>\<open>Int64\<close> changes no row and no key and is left out, as are the warning and the
  list of terrestrial frequencies that is only handed to the period search.
\<close>

record services =
  get_ids_loop :: "int \<Rightarrow> int \<Rightarrow> int \<Rightarrow> (int, source) dict"
  gaia_query :: kowalski
  get_lightcurves_via_ids :: "int list \<Rightarrow> lightcurve list"
  removeHighCadence :: "real \<Rightarrow> tme \<Rightarrow> tme"
  calc_basic_stats :: "tme \<Rightarrow> real list"
  featurize_single_ts :: "tme \<Rightarrow> (string, fval) dict"
  find_periods :: "string \<Rightarrow> tme list \<Rightarrow> real list \<Rightarrow> real list \<times> real list \<times> real list"
  calc_fourier_stats :: "tme \<Rightarrow> real \<Rightarrow> real list"
  compute_dmdt :: "real list \<Rightarrow> real list \<Rightarrow> real list"
  get_ztf_alert_stats :: "(int, source) dict \<Rightarrow> (int, real \<times> real) dict"
  xmatch :: "(int, source) dict \<Rightarrow> (int, source) dict"

record params =
  limit :: int
  xmatch_radius_arcsec :: real
  period_algorithms :: "string list"
  doCPU :: bool
  doGPU :: bool
  samples_per_peak :: int
  doLongPeriod :: bool
  field :: int
  ccd :: int
  quad :: int
  min_n_lc_points :: int
  min_cadence_minutes :: real
  doCesium :: bool
  doNotSave :: bool
  provenance :: "(string, string) dict"

datatype event =
    GetIds int int int
  | ConeSearch "(int \<times> radec) list"
  | GetLightcurves "int list"
  | FindPeriods string
  | AlertStats "int list"
  | ExternalXmatch "int list"
  | WriteMeta nat
  | WriteParquet nat

record loop_state =
  feature_dict :: "(int, source) dict"
  baseline :: real
  keep_id_list :: "int list"
  tme_collection :: "tme list"

record feature_df =
  df_rows :: "(int, source) dict"
  df_attrs :: "(string, string) dict"

definition and_then :: "py_error + 'a \<Rightarrow> ('a \<Rightarrow> py_error + 'b) \<Rightarrow> py_error + 'b" where
  "and_then r f = (case r of Inl e \<Rightarrow> Inl e | Inr x \<Rightarrow> f x)"

definition py_nth :: "'a list \<Rightarrow> nat \<Rightarrow> py_error + 'a" where
  "py_nth xs i = (if i < length xs then Inr (xs ! i) else Inl IndexError)"

definition unpack_tme :: "row list \<Rightarrow> py_error + jval list \<times> jval list \<times> jval list" where
  \<comment> \<open>\<^verbatim>\<open>t, m, e = np.array(tme).transpose()\<close>: the array of no rows has shape \<open>(0,)\<close>, and
    unpacking it raises; rows of numbers, nulls and strings give an array of three columns,
    of floats, objects or strings\<close>
  "unpack_tme rows =
     (if rows = [] then Inl ValueError
      else Inr (map fst rows, map (\<lambda>r. fst (snd r)) rows, map (\<lambda>r. snd (snd r)) rows))"

text \<open>
  \<^verbatim>\<open>removeHighCadence\<close>, the baseline of line 338 and the statistics are arithmetic on the
  three columns. They are modelled on columns of floats; on a column that holds a null or a
  string the arithmetic of Python raises \<^verbatim>\<open>TypeError\<close>, inside the \<^verbatim>\<open>try\<close> block.
\<close>

fun float_column :: "jval list \<Rightarrow> py_error + real list" where
  "float_column [] = Inr []"
| "float_column (JNum r # vs) = and_then (float_column vs) (\<lambda>rs. Inr (r # rs))"
| "float_column (v # vs) = Inl TypeError"

definition float_columns :: "jval list \<times> jval list \<times> jval list \<Rightarrow> py_error + tme" where
  "float_columns cols =
     and_then (float_column (fst cols)) (\<lambda>t.
     and_then (float_column (fst (snd cols))) (\<lambda>m.
     and_then (float_column (snd (snd cols))) (\<lambda>e. Inr (t, m, e))))"

definition unpack_named :: "string list \<Rightarrow> real list \<Rightarrow> py_error + (string, fval) dict" where
  \<comment> \<open>unpacking a returned tuple into the named variables\<close>
  "unpack_named names vals =
     (if length vals = length names then Inr (zip names (map FNum vals)) else Inl ValueError)"

definition update_features ::
  "(int, source) dict \<Rightarrow> int \<Rightarrow> (string, fval) dict \<Rightarrow> py_error + (int, source) dict" where
  \<comment> \<open>\<^verbatim>\<open>feature_dict[_id][k] = v\<close> for each pair\<close>
  "update_features fd i kvs =
     (case map_of fd i of
        None \<Rightarrow> Inl KeyError
      | Some v \<Rightarrow> Inr (dict_set fd i (v\<lparr>features := dict_update (features v) kvs\<rparr>)))"

definition basic_stat_names :: "string list" where
  "basic_stat_names =
     [''n'', ''median'', ''wmean'', ''chi2red'', ''roms'', ''wstd'', ''norm_peak_to_peak_amp'',
      ''norm_excess_var'', ''median_abs_dev'', ''iqr'', ''i60r'', ''i70r'', ''i80r'', ''i90r'',
      ''skew'', ''smallkurt'', ''inv_vonneumannratio'', ''welch_i'', ''stetson_j'',
      ''stetson_k'', ''ad'', ''sw'']"

definition fourier_stat_names :: "string list" where
  "fourier_stat_names =
     [''f1_power'', ''f1_BIC'', ''f1_a'', ''f1_b'', ''f1_amp'', ''f1_phi0'', ''f1_relamp1'',
      ''f1_relphi1'', ''f1_relamp2'', ''f1_relphi2'', ''f1_relamp3'', ''f1_relphi3'',
      ''f1_relamp4'', ''f1_relphi4'']"

definition accept_source ::
  "services \<Rightarrow> params \<Rightarrow> (int, source) dict \<Rightarrow> lightcurve \<Rightarrow> tme \<Rightarrow> loop_state \<Rightarrow>
   py_error option \<times> loop_state" where
  \<comment> \<open>the \<^verbatim>\<open>else\<close> branch of the point-count test; the state is the one reached when the
    branch ends or raises\<close>
  "accept_source S P fgsl lc c st =
     (let st1 = st\<lparr>keep_id_list := keep_id_list st @ [lc_id lc]\<rparr>;
          tt = fst c
      in if tt = [] then (Some ValueError, st1)
         else
           let new_baseline = foldl max (hd tt) (tl tt) - foldl min (hd tt) (tl tt);
               st2 = st1\<lparr>baseline := (if new_baseline > baseline st1 then new_baseline
                                        else baseline st1),
                         tme_collection := tme_collection st1 @ [c]\<rparr>
           in (case dict_get fgsl (lc_id lc) of
                 Inl e \<Rightarrow> (Some e, st2)
               | Inr src \<Rightarrow>
                   (case update_features (feature_dict st2) (lc_id lc)
                           [(''ra'', FNum (fst (radec_geojson src) + 180)),
                            (''dec'', FNum (snd (radec_geojson src))),
                            (''field'', FInt (field P)), (''ccd'', FInt (ccd P)),
                            (''quad'', FInt (quad P)), (''filter'', FInt (lc_filter lc))] of
                      Inl e \<Rightarrow> (Some e, st2)
                    | Inr fd1 \<Rightarrow>
                        (case unpack_named basic_stat_names (calc_basic_stats S c) of
                           Inl e \<Rightarrow> (Some e, st2\<lparr>feature_dict := fd1\<rparr>)
                         | Inr stats \<Rightarrow>
                             (case update_features fd1 (lc_id lc)
                                     (stats @ (if doCesium P then featurize_single_ts S c else [])) of
                                Inl e \<Rightarrow> (Some e, st2\<lparr>feature_dict := fd1\<rparr>)
                              | Inr fd2 \<Rightarrow> (None, st2\<lparr>feature_dict := fd2\<rparr>))))))"

fun lc_unflagged :: "lc_point list \<Rightarrow> py_error + lc_point list" where
  \<comment> \<open>line 318: \<^verbatim>\<open>x['catflags']\<close> is read for every point; a point is kept when the value
    equals 0\<close>
  "lc_unflagged [] = Inr []"
| "lc_unflagged (x # xs) =
     (case catflags x of
        None \<Rightarrow> Inl KeyError
      | Some f \<Rightarrow> and_then (lc_unflagged xs) (\<lambda>r. Inr (if f = JNum 0 then x # r else r)))"

fun tme_rows :: "lc_point list \<Rightarrow> py_error + row list" where
  \<comment> \<open>line 321: the three keys are read for every unflagged point\<close>
  "tme_rows [] = Inr []"
| "tme_rows (x # xs) =
     (case hjd x of
        None \<Rightarrow> Inl KeyError
      | Some h \<Rightarrow>
          (case mag x of
             None \<Rightarrow> Inl KeyError
           | Some m \<Rightarrow>
               (case magerr x of
                  None \<Rightarrow> Inl KeyError
                | Some e \<Rightarrow> and_then (tme_rows xs) (\<lambda>r. Inr ((h, m, e) # r)))))"

definition lc_rows :: "lightcurve \<Rightarrow> py_error + row list" where
  \<comment> \<open>\<^verbatim>\<open>tme\<close>, from the unflagged points; built before the \<^verbatim>\<open>try\<close> block, so that a
    missing key raises out of the loop\<close>
  "lc_rows lc = and_then (lc_unflagged (lc_data lc)) tme_rows"

definition try_body ::
  "services \<Rightarrow> params \<Rightarrow> (int, source) dict \<Rightarrow> lightcurve \<Rightarrow> row list \<Rightarrow> loop_state \<Rightarrow>
   py_error option \<times> loop_state" where
  "try_body S P fgsl lc rows st =
     (case and_then (unpack_tme rows) float_columns of
        Inl e \<Rightarrow> (Some e, st)
      | Inr tme_arr \<Rightarrow>
          let c = removeHighCadence S (min_cadence_minutes P) tme_arr
          in if int (length (fst c)) < min_n_lc_points P
             then (case dict_pop (feature_dict st) (lc_id lc) of
                     Inl e \<Rightarrow> (Some e, st)
                   | Inr fd \<Rightarrow> (None, st\<lparr>feature_dict := fd\<rparr>))
             else accept_source S P fgsl lc c st)"

definition lc_step ::
  "services \<Rightarrow> params \<Rightarrow> (int, source) dict \<Rightarrow> lightcurve \<Rightarrow> loop_state \<Rightarrow>
   py_error + loop_state" where
  \<comment> \<open>one light curve: the rows, then the \<^verbatim>\<open>try\<close> block with its \<^verbatim>\<open>except ValueError\<close>
    handler\<close>
  "lc_step S P fgsl lc st =
     and_then (lc_rows lc) (\<lambda>rows.
       case try_body S P fgsl lc rows st of
         (None, st') \<Rightarrow> Inr st'
       | (Some e, st') \<Rightarrow>
           if e = ValueError
           then and_then (dict_pop (feature_dict st') (lc_id lc))
                  (\<lambda>fd. Inr (st'\<lparr>feature_dict := fd\<rparr>))
           else Inl e)"

fun lc_loop ::
  "services \<Rightarrow> params \<Rightarrow> (int, source) dict \<Rightarrow> lightcurve list \<Rightarrow> loop_state \<Rightarrow>
   py_error + loop_state" where
  "lc_loop S P fgsl [] st = Inr st"
| "lc_loop S P fgsl (lc # lcs) st =
     and_then (lc_step S P fgsl lc st) (lc_loop S P fgsl lcs)"

definition loop_init :: "(int, source) dict \<Rightarrow> loop_state" where
  \<comment> \<open>\<^verbatim>\<open>feature_dict = feature_gen_source_list.copy()\<close>, baseline 0, empty lists\<close>
  "loop_init fgsl = \<lparr>feature_dict = fgsl, baseline = 0, keep_id_list = [], tme_collection = []\<rparr>"

section \<open>The frequency grid and the later stages\<close>

definition freq_grid :: "bool \<Rightarrow> int \<Rightarrow> real \<Rightarrow> real list" where
  \<comment> \<open>called with a positive baseline only; for \<open>samples_per_peak = 0\<close> the spacing of the
    source is infinite and the grid empty, and so it is here (division by 0 gives 0)\<close>
  "freq_grid long_period spp bl =
     (let fmin = 2 / bl;
          fmax = (if long_period then 48 else 480);
          df = 1 / (real_of_int spp * bl);
          nf = \<lceil>(fmax - fmin) / df\<rceil>
      in map (\<lambda>k. fmin + df * real k) [0 ..< nat nf])"

definition period_search ::
  "services \<Rightarrow> params \<Rightarrow> tme list \<Rightarrow> real list \<Rightarrow>
   py_error + string list \<times> (string, real list \<times> real list \<times> real list) dict" where
  "period_search S P tmes freqs =
     (if doCPU P \<or> doGPU P
      then if doCPU P \<and> doGPU P then Inl KeyError
           else Inr (period_algorithms P,
                  foldl (\<lambda>d alg. dict_set d alg (find_periods S alg tmes freqs)) []
                    (period_algorithms P))
      else let ones = replicate (length tmes) 1
           in Inr ([''Ones''], [(''Ones'', (ones, ones, ones))]))"

fun fourier_ids ::
  "services \<Rightarrow> string \<Rightarrow> real list \<times> real list \<times> real list \<Rightarrow> tme list \<Rightarrow> (nat \<times> int) list \<Rightarrow>
   (int, source) dict \<Rightarrow> py_error + (int, source) dict" where
  "fourier_ids S alg pr tmes [] fd = Inr fd"
| "fourier_ids S alg pr tmes ((idx, i) # rest) fd =
     and_then (py_nth (fst pr) idx) (\<lambda>period.
     and_then (py_nth (fst (snd pr)) idx) (\<lambda>significance.
     and_then (py_nth (snd (snd pr)) idx) (\<lambda>pdot.
     and_then (py_nth tmes idx) (\<lambda>c.
     and_then (unpack_named (map (\<lambda>n. n @ ''_'' @ alg) fourier_stat_names)
                 (calc_fourier_stats S c period)) (\<lambda>stats.
     and_then (update_features fd i
                 (stats @ [(''period_'' @ alg, FNum period),
                           (''significance_'' @ alg, FNum significance),
                           (''pdot_'' @ alg, FNum pdot)]))
       (fourier_ids S alg pr tmes rest))))))"

fun fourier_algs ::
  "services \<Rightarrow> (string, real list \<times> real list \<times> real list) dict \<Rightarrow> tme list \<Rightarrow> int list \<Rightarrow>
   string list \<Rightarrow> (int, source) dict \<Rightarrow> py_error + (int, source) dict" where
  "fourier_algs S pd tmes keep [] fd = Inr fd"
| "fourier_algs S pd tmes keep (alg # algs) fd =
     and_then (dict_get pd alg) (\<lambda>pr.
     and_then (fourier_ids S alg pr tmes (zip [0 ..< length keep] keep) fd)
       (fourier_algs S pd tmes keep algs))"

fun dmdt_ids ::
  "services \<Rightarrow> tme list \<Rightarrow> (nat \<times> int) list \<Rightarrow> (int, source) dict \<Rightarrow>
   py_error + (int, source) dict" where
  "dmdt_ids S tmes [] fd = Inr fd"
| "dmdt_ids S tmes ((idx, i) # rest) fd =
     and_then (py_nth tmes idx) (\<lambda>c.
     and_then (update_features fd i [(''dmdt'', FList (compute_dmdt S (fst c) (fst (snd c))))])
       (dmdt_ids S tmes rest))"

fun alert_ids ::
  "(int, real \<times> real) dict \<Rightarrow> int list \<Rightarrow> (int, source) dict \<Rightarrow> py_error + (int, source) dict" where
  "alert_ids stats [] fd = Inr fd"
| "alert_ids stats (i # rest) fd =
     and_then (dict_get stats i) (\<lambda>a.
     and_then (update_features fd i
                 [(''n_ztf_alerts'', FNum (fst a)), (''mean_ztf_alert_braai'', FNum (snd a))])
       (alert_ids stats rest))"

definition finish :: "params \<Rightarrow> event list \<Rightarrow> (int, source) dict \<Rightarrow> event list \<times> (py_error + feature_df)" where
  \<comment> \<open>the metadata, the files unless \<^verbatim>\<open>doNotSave\<close>, and the returned table\<close>
  "finish P ev rows =
     (ev @ (if doNotSave P then [] else [WriteMeta (length rows), WriteParquet (length rows)]),
      Inr \<lparr>df_rows = rows, df_attrs = provenance P\<rparr>)"

definition later_stages ::
  "services \<Rightarrow> params \<Rightarrow> event list \<Rightarrow> loop_state \<Rightarrow> event list \<times> (py_error + feature_df)" where
  \<comment> \<open>the branch \<^verbatim>\<open>baseline > 0\<close>\<close>
  "later_stages S P ev st =
     (let freqs = freq_grid (doLongPeriod P) (samples_per_peak P) (baseline st)
      in case period_search S P (tme_collection st) freqs of
           Inl e \<Rightarrow> (ev, Inl e)
         | Inr (algs, pd) \<Rightarrow>
             let ev3 = ev @ (if doCPU P \<or> doGPU P then map FindPeriods algs else [])
             in (case and_then
                        (fourier_algs S pd (tme_collection st) (keep_id_list st) algs
                           (feature_dict st))
                        (dmdt_ids S (tme_collection st)
                           (zip [0 ..< length (keep_id_list st)] (keep_id_list st))) of
                   Inl e \<Rightarrow> (ev3, Inl e)
                 | Inr fd \<Rightarrow>
                     let ev4 = ev3 @ [AlertStats (dict_keys fd)]
                     in (case alert_ids (get_ztf_alert_stats S fd) (dict_keys fd) fd of
                           Inl e \<Rightarrow> (ev4, Inl e)
                         | Inr fd' \<Rightarrow>
                             finish P (ev4 @ [ExternalXmatch (dict_keys fd')]) (xmatch S fd'))))"

definition generate_features ::
  "astro \<Rightarrow> services \<Rightarrow> params \<Rightarrow> event list \<times> (py_error + feature_df)" where
  "generate_features A S P =
     (let lst0 = get_ids_loop S (field P) (ccd P) (quad P);
          ev1 = [GetIds (field P) (ccd P) (quad P)]
      in case drop_close_bright_stars A (gaia_query S) (xmatch_radius_arcsec P) (limit P) lst0 of
           Inl e \<Rightarrow>
             (ev1 @ (if limit P = 0 then [] else map ConeSearch (gaia_queries lst0 (limit P))),
              Inl e)
         | Inr fgsl \<Rightarrow>
             let ev2 = ev1 @ map ConeSearch (gaia_queries lst0 (limit P))
                         @ [GetLightcurves (dict_keys fgsl)]
             in (case lc_loop S P fgsl (get_lightcurves_via_ids S (dict_keys fgsl))
                        (loop_init fgsl) of
                   Inl e \<Rightarrow> (ev2, Inl e)
                 | Inr st \<Rightarrow>
                     if baseline st > 0 then later_stages S P ev2 st
                     else finish P ev2 []))"

text \<open>
  A light curve is rejected when its rows are built and then either their unpacking raises
  \<^verbatim>\<open>ValueError\<close> or, after the collapsing of the cadence, it has fewer points than
  \<^verbatim>\<open>min_n_lc_points\<close>: these are the two paths of the loop body that reach
  \<^verbatim>\<open>feature_dict.pop(_id)\<close> before \<^verbatim>\<open>keep_id_list\<close> grows. It is accepted when it reaches the
  \<^verbatim>\<open>else\<close> branch of the point-count test. It is readable when every point has the keys
  that are read and the unflagged points hold numbers only.
\<close>

definition rejected :: "services \<Rightarrow> params \<Rightarrow> lightcurve \<Rightarrow> bool" where
  "rejected S P lc =
     (case lc_rows lc of
        Inl e \<Rightarrow> False
      | Inr rows \<Rightarrow>
          (case and_then (unpack_tme rows) float_columns of
             Inl e \<Rightarrow> e = ValueError
           | Inr t \<Rightarrow> int (length (fst (removeHighCadence S (min_cadence_minutes P) t)))
                       < min_n_lc_points P))"

definition accepted :: "services \<Rightarrow> params \<Rightarrow> lightcurve \<Rightarrow> bool" where
  "accepted S P lc =
     (case lc_rows lc of
        Inl e \<Rightarrow> False
      | Inr rows \<Rightarrow>
          (case and_then (unpack_tme rows) float_columns of
             Inl e \<Rightarrow> False
           | Inr t \<Rightarrow> \<not> int (length (fst (removeHighCadence S (min_cadence_minutes P) t)))
                         < min_n_lc_points P))"

definition readable :: "lightcurve \<Rightarrow> bool" where
  "readable lc =
     (case lc_rows lc of
        Inl e \<Rightarrow> False
      | Inr rows \<Rightarrow>
          (case and_then (unpack_tme rows) float_columns of
             Inl e \<Rightarrow> e = ValueError
           | Inr t \<Rightarrow> True))"


section \<open>Concrete instances\<close>

text \<open>
  Instances of the parameters on which the definitions are evaluated: a separation that is
  3600 times the coordinate distance, so that coincident positions are 0 apart, and an
  exclusion radius of 100 arc seconds for the bright records.
\<close>

definition flat_astro :: astro where
  "flat_astro =
     \<lparr>separation = (\<lambda>a b. 3600 * (\<bar>fst a - fst b\<bar> + \<bar>snd a - snd b\<bar>)),
      TychoBVfromGaia = (\<lambda>g c. (g + c, g)),
      exclude_radius = (\<lambda>B V. if B < 13 then 100 else 0)\<rparr>"

definition src0 :: source where
  "src0 = \<lparr>radec_geojson = (10, 20), features = []\<rparr>"

definition star0 :: candidate where
  "star0 = \<lparr>phot_g_mean_mag = Some 11, bp_rp = Some 1, coordinates = (10, 20)\<rparr>"

definition star_near :: candidate where
  "star_near = \<lparr>phot_g_mean_mag = Some 11, bp_rp = Some 1, coordinates = (10 + 1/100, 20)\<rparr>"

definition answer_first_only :: kowalski where
  "answer_first_only = cone_service (\<lambda>i c. if i = 1 then Some [] else None)"

definition self_fn :: "int \<Rightarrow> radec \<Rightarrow> candidate list option" where
  "self_fn i c = (if i = 1 then Some [star0] else if i = 2 then Some [star_near, star0] else Some [])"

definition three_sources :: "(int, source) dict" where
  "three_sources = [(1, src0), (2, src0), (3, src0)]"


text \<open>
  Instances for the pipeline: light curves by id, services that answer every request, and
  the parameters of a run with the two period-search flags.
\<close>

definition pt :: "real \<Rightarrow> lc_point" where
  "pt t = \<lparr>catflags = Some (JNum 0), hjd = Some (JNum t), mag = Some (JNum 15),
           magerr = Some (JNum (1 / 10))\<rparr>"

definition pt_no_mag :: lc_point where
  "pt_no_mag = \<lparr>catflags = Some (JNum 0), hjd = Some (JNum 0), mag = None,
                 magerr = Some (JNum (1 / 10))\<rparr>"

definition lcs_of :: "int list \<Rightarrow> lightcurve list" where
  \<comment> \<open>id 1 has two points ten days apart, id 2 has no points, id 4 has a point without
    magnitude, every other id has one point\<close>
  "lcs_of ids =
     map (\<lambda>i. \<lparr>lc_id = i,
               lc_data = (if i = 1 then [pt 0, pt 10] else if i = 2 then []
                          else if i = 4 then [pt_no_mag] else [pt 0]),
               lc_filter = 1\<rparr>) ids"

definition svc :: "(int, source) dict \<Rightarrow> services" where
  "svc ids =
     \<lparr>get_ids_loop = (\<lambda>f c q. ids),
      gaia_query = cone_service (\<lambda>i c. Some []),
      get_lightcurves_via_ids = lcs_of,
      removeHighCadence = (\<lambda>cadence c. c),
      calc_basic_stats = (\<lambda>c. replicate 22 0),
      featurize_single_ts = (\<lambda>c. []),
      find_periods = (\<lambda>alg tmes freqs. (replicate (length tmes) 1, replicate (length tmes) 1,
                                         replicate (length tmes) 1)),
      calc_fourier_stats = (\<lambda>c period. replicate 14 0),
      compute_dmdt = (\<lambda>tt mm. []),
      get_ztf_alert_stats = (\<lambda>fd. map (\<lambda>kv. (fst kv, (0, 0))) fd),
      xmatch = (\<lambda>fd. fd)\<rparr>"

definition run_params :: "bool \<Rightarrow> bool \<Rightarrow> params" where
  "run_params cpu gpu =
     \<lparr>limit = 10000, xmatch_radius_arcsec = 2, period_algorithms = [''LS''],
      doCPU = cpu, doGPU = gpu, samples_per_peak = 10, doLongPeriod = False,
      field = 296, ccd = 1, quad = 1, min_n_lc_points = 2, min_cadence_minutes = 30,
      doCesium = False, doNotSave = True, provenance = []\<rparr>"

lemmas ev_defs = drop_close_bright_stars_def gaia_results_dct_def
      gaia_queries_def n_iterations_def id_slice_def batch_query_def cone_service_def
      dict_update_def dict_keys_def dict_get_def dict_pop_def too_close_def
      remaining_def xmatch_coord_def xmatch_source_def all_separations_def delete_at_def Let_def
      excl_radius_def

lemmas ex_defs = flat_astro_def star0_def src0_def star_near_def shift180_def

lemmas loop_defs = lc_step_def try_body_def accept_source_def lc_rows_def unpack_tme_def
  float_columns_def pt_no_mag_def unpack_named_def update_features_def basic_stat_names_def and_then_def loop_init_def
  dict_get_def dict_pop_def dict_update_def dict_keys_def Let_def

section \<open>Lemmas on the bright-star filter\<close>



lemma argmin_first: "i < argmin xs \<Longrightarrow> xs ! argmin xs < xs ! i"
proof (induction xs arbitrary: i rule: argmin.induct)
  case (3 a b ys)
  show ?case
  proof (cases "a \<le> (b # ys) ! argmin (b # ys)")
    case True with 3 show ?thesis by (simp add: Let_def)
  next
    case False
    with 3 show ?thesis by (cases i) (auto simp: Let_def)
  qed
qed simp_all


lemma map_of_filter_neq: "k \<noteq> i \<Longrightarrow> map_of (filter (\<lambda>kv. fst kv \<noteq> i) d) k = map_of d k"
  by (induction d) auto

lemma dict_keys_lookup: "k \<in> set (dict_keys d) \<Longrightarrow> \<exists>v. map_of d k = Some v"
  by (cases "map_of d k") (auto simp: dict_keys_def map_of_eq_None_iff)

lemma dict_keys_remove:
  "set (dict_keys (filter (\<lambda>kv. fst kv \<noteq> j) d)) = set (dict_keys d) - {j}"
  by (induction d) (auto simp: dict_keys_def)

lemma compare_loop_missing:
  "i \<in> set ids \<Longrightarrow> map_of results i = None \<Longrightarrow> set ids \<subseteq> set (dict_keys id_dct) \<Longrightarrow>
   distinct ids \<Longrightarrow> set ids \<subseteq> set (dict_keys keep) \<Longrightarrow>
   compare_loop A xr id_dct results ids keep = Inl KeyError"
proof (induction ids arbitrary: keep)
  case Nil then show ?case by simp
next
  case (Cons j ids)
  from Cons.prems obtain val where val: "map_of id_dct j = Some val"
    using dict_keys_lookup[of j id_dct] by auto
  show ?case
  proof (cases "map_of results j")
    case None
    with val show ?thesis by (simp add: dict_get_def)
  next
    case (Some sr)
    with Cons.prems have i: "i \<in> set ids" by auto
    have sub: "set ids \<subseteq> set (dict_keys (filter (\<lambda>kv. fst kv \<noteq> j) keep))"
      using Cons.prems by (auto simp: dict_keys_remove)
    have 1: "compare_loop A xr id_dct results ids keep = Inl KeyError"
      using Cons.IH[OF i Cons.prems(2)] Cons.prems by auto
    have 2: "compare_loop A xr id_dct results ids (filter (\<lambda>kv. fst kv \<noteq> j) keep) = Inl KeyError"
      using Cons.IH[OF i Cons.prems(2) _ _ sub] Cons.prems by auto
    show ?thesis using val Some 1 2 Cons.prems by (simp add: dict_get_def dict_pop_def)
  qed
qed

lemma compare_loop_ok:
  "\<forall>i \<in> set ids. map_of results i \<noteq> None \<Longrightarrow> set ids \<subseteq> set (dict_keys id_dct) \<Longrightarrow>
   distinct ids \<Longrightarrow> set ids \<subseteq> set (dict_keys keep) \<Longrightarrow>
   compare_loop A xr id_dct results ids keep =
     Inr (filter (\<lambda>kv. \<not> (fst kv \<in> set ids \<and>
            too_close A xr (the (map_of id_dct (fst kv))) (the (map_of results (fst kv))))) keep)"
proof (induction ids arbitrary: keep)
  case Nil then show ?case by simp
next
  case (Cons j ids)
  from Cons.prems obtain val where val: "map_of id_dct j = Some val"
    using dict_keys_lookup[of j id_dct] by auto
  from Cons.prems obtain sr where sr: "map_of results j = Some sr" by auto
  have sub: "set ids \<subseteq> set (dict_keys (filter (\<lambda>kv. fst kv \<noteq> j) keep))"
    using Cons.prems by (auto simp: dict_keys_remove)
  have 1: "compare_loop A xr id_dct results ids keep = Inr (filter (\<lambda>kv. \<not> (fst kv \<in> set ids \<and>
            too_close A xr (the (map_of id_dct (fst kv))) (the (map_of results (fst kv))))) keep)"
    using Cons.IH[of keep] Cons.prems by auto
  have 2: "compare_loop A xr id_dct results ids (filter (\<lambda>kv. fst kv \<noteq> j) keep) = Inr (filter (\<lambda>kv. \<not> (fst kv \<in> set ids \<and>
            too_close A xr (the (map_of id_dct (fst kv))) (the (map_of results (fst kv))))) (filter (\<lambda>kv. fst kv \<noteq> j) keep))"
    using Cons.IH[OF _ _ _ sub] Cons.prems by auto
  show ?case
  proof (cases "too_close A xr val sr")
    case True
    have "compare_loop A xr id_dct results (j # ids) keep = compare_loop A xr id_dct results ids (filter (\<lambda>kv. fst kv \<noteq> j) keep)"
      using val sr True Cons.prems by (simp add: dict_get_def dict_pop_def)
    also note 2
    finally show ?thesis using True val sr by (auto intro!: filter_cong)
  next
    case False
    have "compare_loop A xr id_dct results (j # ids) keep = compare_loop A xr id_dct results ids keep"
      using val sr False by (simp add: dict_get_def)
    also note 1
    finally show ?thesis using False val sr by (auto intro!: filter_cong)
  qed
qed

lemma set_dict_set: "set (dict_set d k v) \<subseteq> insert (k, v) (set d)"
  by (induction d k v rule: dict_set.induct) auto

lemma keys_dict_set: "fst ` set (dict_set d k v) = insert k (fst ` set d)"
  by (induction d k v rule: dict_set.induct) auto

lemma set_dict_update: "set (dict_update d e) \<subseteq> set d \<union> set e"
  unfolding dict_update_def
proof (induction e arbitrary: d)
  case (Cons kv e)
  show ?case using Cons[of "dict_set d (fst kv) (snd kv)"] set_dict_set[of d "fst kv" "snd kv"]
    by auto
qed simp

lemma keys_dict_update: "fst ` set (dict_update d e) = fst ` set d \<union> fst ` set e"
  unfolding dict_update_def
  by (induction e arbitrary: d) (auto simp: keys_dict_set)

lemma set_merge_responses:
  "set (foldl (\<lambda>acc q. dict_update acc (K q)) d qs) \<subseteq> set d \<union> (\<Union>q \<in> set qs. set (K q))"
proof (induction qs arbitrary: d)
  case (Cons q qs)
  show ?case using Cons[of "dict_update d (K q)"] set_dict_update[of d "K q"] by auto
qed simp

lemma keys_merge_responses:
  "fst ` set (foldl (\<lambda>acc q. dict_update acc (K q)) d qs) =
     fst ` set d \<union> (\<Union>q \<in> set qs. fst ` set (K q))"
  by (induction qs arbitrary: d) (auto simp: keys_dict_update)

lemma map_of_functional:
  "\<forall>kv \<in> set xs. g (fst kv) = Some (snd kv) \<Longrightarrow>
   map_of xs k = (if k \<in> fst ` set xs then g k else None)"
  by (induction xs) (auto simp: map_of_eq_None_iff)

lemma n_iterations_pos:
  assumes "0 < lmt" "j < n"
  shows "j div nat lmt < nat (n_iterations n lmt)"
proof -
  define l where "l = nat lmt"
  have l: "lmt = int l" "0 < l" using assms(1) by (simp_all add: l_def)
  have "int n mod int l = int (n mod l)" "int n div int l = int (n div l)"
    by (simp_all add: zmod_int zdiv_int)
  hence m: "nat (n_iterations n lmt) = (if n mod l \<noteq> 0 then n div l + 1 else n div l)"
    by (simp add: n_iterations_def l nat_add_distrib)
  have le: "j div l \<le> n div l" using assms(2) by (simp add: div_le_mono)
  have "j div l < n div l" if "n mod l = 0"
  proof -
    from that have "n div l * l = n" by (simp add: mod_eq_0_iff_dvd)
    with assms(2) l(2) show ?thesis by (simp add: div_less_iff_less_mult)
  qed
  with le show ?thesis unfolding m l_def[symmetric] by (simp split: if_splits)
qed

lemma n_iterations_neg:
  assumes "lmt < 0"
  shows "nat (n_iterations n lmt) = 0"
proof -
  have d: "int n div lmt \<le> 0" using assms by (simp add: div_nonneg_neg_le0)
  have "int n div lmt < 0" if "int n mod lmt \<noteq> 0"
  proof (rule ccontr)
    assume "\<not> int n div lmt < 0"
    with d have z: "int n div lmt = 0" by simp
    have "int n = lmt * (int n div lmt) + int n mod lmt" by simp
    with z have "int n = int n mod lmt" by simp
    moreover have "int n mod lmt \<le> 0" using assms by (simp add: neg_mod_sign)
    ultimately have "int n mod lmt = 0" by linarith
    with that show False by simp
  qed
  with d show ?thesis by (auto simp: n_iterations_def)
qed

lemma slices_cover:
  assumes "0 < lmt" "x \<in> set id_dct"
  shows "\<exists>i < nat (n_iterations (length id_dct) lmt). x \<in> set (id_slice id_dct (nat lmt) i)"
proof -
  define l where "l = nat lmt"
  have l: "0 < l" using assms(1) by (simp add: l_def)
  from assms(2) obtain j where j: "j < length id_dct" "id_dct ! j = x"
    by (auto simp: in_set_conv_nth)
  define i where "i = j div l"
  define b where "b = j mod l"
  have i: "i < nat (n_iterations (length id_dct) lmt)"
    using n_iterations_pos[OF assms(1) j(1)] by (simp add: i_def l_def)
  have eq: "i * l + b = j" by (simp add: i_def b_def)
  have lt1: "b < l" using l by (simp add: b_def)
  have s: "(i + 1) * l = i * l + l" by simp
  have lt: "b < min (length id_dct) ((i + 1) * l) - i * l"
    unfolding s using j(1) lt1 eq by linarith
  have "id_slice id_dct l i ! b = x"
    unfolding id_slice_def using lt j eq by (simp add: nth_drop)
  moreover have "b < length (id_slice id_dct l i)"
    unfolding id_slice_def using lt j eq by simp
  ultimately have "x \<in> set (id_slice id_dct l i)" by (metis nth_mem)
  with i show ?thesis unfolding l_def by blast
qed

lemma slice_subset: "set (id_slice id_dct l i) \<subseteq> set id_dct"
  unfolding id_slice_def by (meson set_take_subset set_drop_subset subset_trans)

lemma distinct_lookup:
  "distinct (dict_keys d) \<Longrightarrow> kv \<in> set d \<Longrightarrow> map_of d (fst kv) = Some (snd kv)"
  by (cases kv) (simp add: dict_keys_def)

lemma drop_close_bright_stars_eq:
  assumes "distinct (dict_keys id_dct)" "lmt \<noteq> 0"
  shows "drop_close_bright_stars A K xr lmt id_dct =
     (if \<exists>i \<in> set (dict_keys id_dct). map_of (gaia_results_dct K id_dct lmt) i = None
      then Inl KeyError
      else Inr (filter (\<lambda>kv. \<not> too_close A xr (snd kv)
                  (the (map_of (gaia_results_dct K id_dct lmt) (fst kv)))) id_dct))"
proof (cases "\<exists>i \<in> set (dict_keys id_dct). map_of (gaia_results_dct K id_dct lmt) i = None")
  case True
  then obtain i where "i \<in> set (dict_keys id_dct)" "map_of (gaia_results_dct K id_dct lmt) i = None"
    by blast
  from compare_loop_missing[OF this _ assms(1), where id_dct=id_dct and keep=id_dct and A=A and xr=xr] True assms(2)
  show ?thesis by (simp add: drop_close_bright_stars_def)
next
  case False
  hence "\<forall>i \<in> set (dict_keys id_dct). map_of (gaia_results_dct K id_dct lmt) i \<noteq> None" by simp
  from compare_loop_ok[OF this _ assms(1), where id_dct=id_dct and keep=id_dct and A=A and xr=xr]
  have "drop_close_bright_stars A K xr lmt id_dct =
     Inr (filter (\<lambda>kv. \<not> (fst kv \<in> set (dict_keys id_dct) \<and>
            too_close A xr (the (map_of id_dct (fst kv)))
              (the (map_of (gaia_results_dct K id_dct lmt) (fst kv))))) id_dct)"
    using assms(2) by (simp add: drop_close_bright_stars_def)
  also have "filter (\<lambda>kv. \<not> (fst kv \<in> set (dict_keys id_dct) \<and>
            too_close A xr (the (map_of id_dct (fst kv)))
              (the (map_of (gaia_results_dct K id_dct lmt) (fst kv))))) id_dct =
     filter (\<lambda>kv. \<not> too_close A xr (snd kv)
                  (the (map_of (gaia_results_dct K id_dct lmt) (fst kv)))) id_dct"
    using distinct_lookup[OF assms(1)] by (intro filter_cong) (auto simp: dict_keys_def)
  finally show ?thesis using False by simp
qed

lemma cone_service_pairs:
  "(i, r) \<in> set (cone_service f q) \<longleftrightarrow> (\<exists>ic \<in> set q. fst ic = i \<and> f i (snd ic) = Some r)"
  by (induction q) (auto simp: cone_service_def split: option.splits)

lemma gaia_results_cone:
  assumes d: "distinct (dict_keys id_dct)" and iv: "(i, v) \<in> set id_dct" and l: "lmt \<noteq> 0"
  shows "map_of (gaia_results_dct (cone_service f) id_dct lmt) i =
           (if 0 < lmt then f i (shift180 (radec_geojson v)) else None)"
proof (cases "0 < lmt")
  case False
  with l have "lmt < 0" by simp
  hence "gaia_queries id_dct lmt = []" by (simp add: gaia_queries_def n_iterations_neg)
  thus ?thesis using False by (simp add: gaia_results_dct_def)
next
  case True
  define g where "g j = (case map_of id_dct j of None \<Rightarrow> None
                         | Some w \<Rightarrow> f j (shift180 (radec_geojson w)))" for j
  define R where "R = gaia_results_dct (cone_service f) id_dct lmt"
  have gi: "g i = f i (shift180 (radec_geojson v))"
    using distinct_lookup[OF d iv] by (simp add: g_def)
  have inq: "g j = f j c" if "q \<in> set (gaia_queries id_dct lmt)" "(j, c) \<in> set q" for q j c
  proof -
    from that obtain k w where "(j, w) \<in> set (id_slice id_dct (nat lmt) k)"
      "c = shift180 (radec_geojson w)"
      by (auto simp: gaia_queries_def batch_query_def)
    moreover hence "(j, w) \<in> set id_dct" using slice_subset by blast
    ultimately show ?thesis using distinct_lookup[OF d, of "(j, w)"] by (simp add: g_def)
  qed
  have subR: "set R \<subseteq> (\<Union>q \<in> set (gaia_queries id_dct lmt). set (cone_service f q))"
    using set_merge_responses[of "cone_service f" "[]" "gaia_queries id_dct lmt"]
    by (simp add: R_def gaia_results_dct_def)
  have fn: "\<forall>kv \<in> set R. g (fst kv) = Some (snd kv)"
  proof
    fix kv assume "kv \<in> set R"
    with subR obtain q where q: "q \<in> set (gaia_queries id_dct lmt)"
      "(fst kv, snd kv) \<in> set (cone_service f q)" by auto
    from q(2) obtain ic where "ic \<in> set q" "fst ic = fst kv" "f (fst kv) (snd ic) = Some (snd kv)"
      unfolding cone_service_pairs by blast
    with inq[OF q(1), of "fst kv" "snd ic"] show "g (fst kv) = Some (snd kv)"
      by (metis prod.collapse)
  qed
  have keys: "fst ` set R = (\<Union>q \<in> set (gaia_queries id_dct lmt). fst ` set (cone_service f q))"
    using keys_merge_responses[of "cone_service f" "[]" "gaia_queries id_dct lmt"]
    by (simp add: R_def gaia_results_dct_def)
  have "i \<in> fst ` set R" if "g i \<noteq> None"
  proof -
    from that gi obtain r where r: "f i (shift180 (radec_geojson v)) = Some r" by auto
    from slices_cover[OF True iv] obtain k where
      k: "k < nat (n_iterations (length id_dct) lmt)" "(i, v) \<in> set (id_slice id_dct (nat lmt) k)"
      by blast
    let ?q = "batch_query (id_slice id_dct (nat lmt) k)"
    have "?q \<in> set (gaia_queries id_dct lmt)" using k(1) by (simp add: gaia_queries_def)
    moreover have "(i, shift180 (radec_geojson v)) \<in> set ?q"
      using k(2) by (force simp: batch_query_def)
    hence "(i, r) \<in> set (cone_service f ?q)" using r unfolding cone_service_pairs by force
    ultimately show ?thesis unfolding keys by force
  qed
  hence "map_of R i = g i" using map_of_functional[OF fn, of i] by (cases "g i") auto
  thus ?thesis using True gi by (simp add: R_def)
qed



lemma ex_run:
  "drop_close_bright_stars flat_astro (cone_service self_fn) 2 2 three_sources
     = Inr [(1, src0), (3, src0)]"
  by (simp add: ev_defs self_fn_def three_sources_def numeral_2_eq_2) (simp add: ex_defs)

lemma ex_res3: "map_of (gaia_results_dct (cone_service self_fn) three_sources 2) 3 = Some []"
  by (simp add: ev_defs self_fn_def three_sources_def numeral_2_eq_2)


lemma ex5: "map_of (gaia_results_dct answer_first_only [(1, src0), (2, src0)] 10000) 2 = None"
  by (simp add: ev_defs answer_first_only_def)

section \<open>Claims on the bright-star filter\<close>





text \<open>
  Claim C5, as amended. The lookup \<^verbatim>\<open>gaia_results_dct[str(id)]\<close> of an id that is missing from
  the merged query results raises \<^verbatim>\<open>KeyError\<close>, and the error leaves
  \<^verbatim>\<open>drop_close_bright_stars\<close>: no dictionary is returned.
\<close>

theorem missing_id_raises:
  assumes "distinct (dict_keys id_dct)" and "lmt \<noteq> 0"
    and "i \<in> set (dict_keys id_dct)"
    and "map_of (gaia_results_dct K id_dct lmt) i = None"
  shows "drop_close_bright_stars A K xr lmt id_dct = Inl KeyError"
  using drop_close_bright_stars_eq[OF assms(1,2), of A K xr] assms(3,4) by auto

theorem missing_id_raises_witness:
  "drop_close_bright_stars flat_astro answer_first_only 2 10000 [(1, src0), (2, src0)] = Inl KeyError"
  by (rule missing_id_raises[where i = 2]) (simp_all add: ex5, simp_all add: dict_keys_def)

text \<open>
  Claim C5 as stated fails: the service answers for id 1 only, and the filter raises instead of
  keeping id 2.
\<close>

theorem missing_id_counterexample:
  "map_of (gaia_results_dct answer_first_only [(1, src0), (2, src0)] 10000) 2 = None \<and>
   drop_close_bright_stars flat_astro answer_first_only 2 10000 [(1, src0), (2, src0)]
     \<noteq> Inr [(1, src0), (2, src0)] \<and>
   drop_close_bright_stars flat_astro answer_first_only 2 10000 [(1, src0), (2, src0)]
     = Inl KeyError"
  by (simp add: ev_defs answer_first_only_def)





text \<open>
  Claim C9. A Source for which the query results hold an empty candidate list is not
  dropped: it is in every dictionary that \<^verbatim>\<open>drop_close_bright_stars\<close> returns.
\<close>

theorem no_candidates_kept:
  assumes "distinct (dict_keys id_dct)"
    and "(i, v) \<in> set id_dct"
    and "map_of (gaia_results_dct K id_dct lmt) i = Some []"
  shows "\<not> too_close A xr v [] \<and>
         (\<forall>keep. drop_close_bright_stars A K xr lmt id_dct = Inr keep \<longrightarrow> (i, v) \<in> set keep)"
proof (intro conjI allI impI)
  show "\<not> too_close A xr v []" by (simp add: too_close_def)
next
  fix keep assume r: "drop_close_bright_stars A K xr lmt id_dct = Inr keep"
  hence l: "lmt \<noteq> 0" by (auto simp: drop_close_bright_stars_def)
  from r drop_close_bright_stars_eq[OF assms(1) l, of A K xr]
  have "keep = filter (\<lambda>kv. \<not> too_close A xr (snd kv)
                  (the (map_of (gaia_results_dct K id_dct lmt) (fst kv)))) id_dct"
    by (auto split: if_splits)
  thus "(i, v) \<in> set keep" using assms(2,3) by (simp add: too_close_def)
qed

theorem no_candidates_kept_witness:
  "distinct (dict_keys three_sources) \<and> (3, src0) \<in> set three_sources \<and>
   map_of (gaia_results_dct (cone_service self_fn) three_sources 2) 3 = Some [] \<and>
   drop_close_bright_stars flat_astro (cone_service self_fn) 2 2 three_sources
     = Inr [(1, src0), (3, src0)] \<and>
   (3, src0) \<in> set [(1 :: int, src0), (3, src0)]"
proof -
  have d: "distinct (dict_keys three_sources)" by (simp add: three_sources_def dict_keys_def)
  have m: "(3, src0) \<in> set three_sources" by (simp add: three_sources_def)
  from no_candidates_kept[OF d m ex_res3, of flat_astro 2] ex_run
  have "(3, src0) \<in> set [(1 :: int, src0), (3, src0)]" by blast
  with d m ex_res3 ex_run show ?thesis by blast
qed


text \<open>
  Claim C10. With a catalog service that answers each id by its position alone, the filter
  applied to the dictionary it returned gives that dictionary again.
\<close>

theorem drop_idempotent:
  assumes d: "distinct (dict_keys id_dct)"
    and r: "drop_close_bright_stars A (cone_service f) xr lmt id_dct = Inr keep"
  shows "drop_close_bright_stars A (cone_service f) xr lmt keep = Inr keep"
proof -
  have l: "lmt \<noteq> 0" using r by (auto simp: drop_close_bright_stars_def)
  let ?R = "gaia_results_dct (cone_service f) id_dct lmt"
  let ?R' = "gaia_results_dct (cone_service f) keep lmt"
  from r drop_close_bright_stars_eq[OF d l, of A "cone_service f" xr]
  have ok: "\<forall>i \<in> set (dict_keys id_dct). map_of ?R i \<noteq> None"
    and keep: "keep = filter (\<lambda>kv. \<not> too_close A xr (snd kv) (the (map_of ?R (fst kv)))) id_dct"
    by (auto split: if_splits)
  have sub: "set keep \<subseteq> set id_dct" using keep by auto
  have d': "distinct (dict_keys keep)"
    using d unfolding keep dict_keys_def by (simp add: distinct_map_filter)
  have same: "map_of ?R' (fst kv) = map_of ?R (fst kv)" if "kv \<in> set keep" for kv
  proof -
    obtain i v where kv: "kv = (i, v)" by (cases kv)
    with that sub have "(i, v) \<in> set keep" "(i, v) \<in> set id_dct" by auto
    thus ?thesis using gaia_results_cone[OF d' _ l, of i v f] gaia_results_cone[OF d _ l, of i v f] kv
      by simp
  qed
  have none: "\<not> (\<exists>i \<in> set (dict_keys keep). map_of ?R' i = None)"
  proof
    assume "\<exists>i \<in> set (dict_keys keep). map_of ?R' i = None"
    then obtain kv where "kv \<in> set keep" "map_of ?R' (fst kv) = None" by (auto simp: dict_keys_def)
    with same[of kv] ok sub show False by (force simp: dict_keys_def)
  qed
  have "filter (\<lambda>kv. \<not> too_close A xr (snd kv) (the (map_of ?R' (fst kv)))) keep = keep"
  proof (rule filter_True, rule ballI)
    fix kv assume "kv \<in> set keep"
    thus "\<not> too_close A xr (snd kv) (the (map_of ?R' (fst kv)))"
      using same[of kv] keep by auto
  qed
  with none drop_close_bright_stars_eq[OF d' l, of A "cone_service f" xr] show ?thesis by simp
qed

theorem drop_idempotent_witness:
  "distinct (dict_keys three_sources) \<and>
   drop_close_bright_stars flat_astro (cone_service self_fn) 2 2 three_sources
     = Inr [(1, src0), (3, src0)] \<and>
   drop_close_bright_stars flat_astro (cone_service self_fn) 2 2 [(1, src0), (3, src0)]
     = Inr [(1, src0), (3, src0)]"
proof -
  have d: "distinct (dict_keys three_sources)" by (simp add: three_sources_def dict_keys_def)
  from drop_idempotent[OF d ex_run] d ex_run show ?thesis by simp
qed

section \<open>Lemmas on the feature pipeline\<close>

lemma freq_grid_nth:
  "i < length (freq_grid lp spp bl) \<Longrightarrow>
   freq_grid lp spp bl ! i = 2 / bl + 1 / (real_of_int spp * bl) * real i"
  by (simp add: freq_grid_def Let_def)

lemma dict_keys_dict_set:
  "k \<in> set (dict_keys d) \<Longrightarrow> dict_keys (dict_set d k v) = dict_keys d"
  by (induction d k v rule: dict_set.induct) (auto simp: dict_keys_def)

lemma map_of_Some_key: "map_of d k = Some v \<Longrightarrow> k \<in> set (dict_keys d)"
  by (auto simp: dict_keys_def dest: map_of_SomeD intro: rev_image_eqI)

lemma update_features_Inr:
  assumes "update_features fd i kvs = Inr fd'"
  shows "dict_keys fd' = dict_keys fd \<and> i \<in> set (dict_keys fd)"
proof -
  from assms obtain v where v: "map_of fd i = Some v"
    and fd': "fd' = dict_set fd i (v\<lparr>features := dict_update (features v) kvs\<rparr>)"
    by (auto simp: update_features_def split: option.splits)
  from v have "i \<in> set (dict_keys fd)" by (rule map_of_Some_key)
  thus ?thesis using fd' by (simp add: dict_keys_dict_set)
qed

lemma update_features_Inl:
  "update_features fd i kvs = Inl e \<Longrightarrow> e = KeyError \<and> i \<notin> set (dict_keys fd)"
  by (auto simp: update_features_def dict_keys_def map_of_eq_None_iff split: option.splits)

lemma dict_pop_Inr:
  "dict_pop d k = Inr d' \<Longrightarrow> k \<in> set (dict_keys d) \<and> d' = filter (\<lambda>kv. fst kv \<noteq> k) d"
  by (auto simp: dict_pop_def split: if_splits)

lemma dict_pop_Inl: "dict_pop d k = Inl e \<Longrightarrow> e = KeyError \<and> k \<notin> set (dict_keys d)"
  by (auto simp: dict_pop_def split: if_splits)

lemma dict_get_Inl: "dict_get d k = Inl e \<Longrightarrow> e = KeyError \<and> k \<notin> set (dict_keys d)"
  by (auto simp: dict_get_def dict_keys_def map_of_eq_None_iff split: option.splits)

lemma unpack_named_Inl: "unpack_named ns vs = Inl e \<Longrightarrow> e = ValueError"
  by (auto simp: unpack_named_def split: if_splits)

lemma accept_source_props:
  assumes "accept_source S P fgsl lc c st = (exc, st')"
  shows "keep_id_list st' = keep_id_list st @ [lc_id lc]"
    and "dict_keys (feature_dict st') = dict_keys (feature_dict st)"
    and "exc = None \<or> exc = Some ValueError \<or>
         (exc = Some KeyError \<and>
          (lc_id lc \<notin> set (dict_keys fgsl) \<or> lc_id lc \<notin> set (dict_keys (feature_dict st))))"
  using assms
  by (auto simp: accept_source_def Let_def
      split: if_splits sum.splits
      dest!: update_features_Inr update_features_Inl dict_get_Inl unpack_named_Inl)

lemma unpack_tme_Inl: "unpack_tme rows = Inl e \<Longrightarrow> e = ValueError \<and> rows = []"
  by (auto simp: unpack_tme_def split: if_splits)

lemma float_column_Inl: "float_column vs = Inl e \<Longrightarrow> e = TypeError"
  by (induction vs rule: float_column.induct) (auto simp: and_then_def split: sum.splits)

lemma float_columns_Inl: "float_columns cols = Inl e \<Longrightarrow> e = TypeError"
  by (auto simp: float_columns_def and_then_def split: sum.splits dest: float_column_Inl)

lemma lc_unflagged_Inl: "lc_unflagged xs = Inl e \<Longrightarrow> e = KeyError"
  by (induction xs) (auto simp: and_then_def split: option.splits sum.splits)

lemma tme_rows_Inl: "tme_rows xs = Inl e \<Longrightarrow> e = KeyError"
  by (induction xs) (auto simp: and_then_def split: option.splits sum.splits)

lemma lc_rows_Inl: "lc_rows lc = Inl e \<Longrightarrow> e = KeyError"
  by (auto simp: lc_rows_def and_then_def split: sum.splits dest: lc_unflagged_Inl tme_rows_Inl)

lemma lc_step_rows:
  "lc_rows lc = Inr rows \<Longrightarrow>
   lc_step S P fgsl lc st =
     (case try_body S P fgsl lc rows st of
        (None, st') \<Rightarrow> Inr st'
      | (Some e, st') \<Rightarrow>
          if e = ValueError
          then and_then (dict_pop (feature_dict st') (lc_id lc))
                 (\<lambda>fd. Inr (st'\<lparr>feature_dict := fd\<rparr>))
          else Inl e)"
  by (simp add: lc_step_def and_then_def)

lemma readable_cases: "readable lc \<longleftrightarrow> rejected S P lc \<or> accepted S P lc"
  by (auto simp: readable_def rejected_def accepted_def split: sum.splits)

lemma accepted_not_rejected: "accepted S P lc \<Longrightarrow> \<not> rejected S P lc"
  by (auto simp: rejected_def accepted_def split: sum.splits)

lemma lc_step_unreadable:
  assumes "\<not> readable lc"
  shows "lc_step S P fgsl lc st = Inl KeyError \<or> lc_step S P fgsl lc st = Inl TypeError"
proof (cases "lc_rows lc")
  case (Inl e)
  thus ?thesis by (auto simp: lc_step_def and_then_def dest: lc_rows_Inl)
next
  case (Inr rows)
  with assms obtain e where e: "and_then (unpack_tme rows) float_columns = Inl e" "e \<noteq> ValueError"
    by (auto simp: readable_def split: sum.splits)
  hence "e = TypeError"
    by (auto simp: and_then_def split: sum.splits dest: unpack_tme_Inl float_columns_Inl)
  with e Inr show ?thesis by (simp add: lc_step_rows try_body_def)
qed

lemma lc_step_rejected:
  assumes "rejected S P lc"
  shows "lc_step S P fgsl lc st =
           (if lc_id lc \<in> set (dict_keys (feature_dict st))
            then Inr (st\<lparr>feature_dict := filter (\<lambda>kv. fst kv \<noteq> lc_id lc) (feature_dict st)\<rparr>)
            else Inl KeyError)"
proof -
  from assms obtain rows where rows: "lc_rows lc = Inr rows"
    by (auto simp: rejected_def split: sum.splits)
  show ?thesis
  proof (cases "and_then (unpack_tme rows) float_columns")
    case (Inl e)
    with assms rows have "e = ValueError" by (simp add: rejected_def)
    with Inl show ?thesis
      by (simp add: lc_step_rows[OF rows] try_body_def and_then_def dict_pop_def)
  next
    case (Inr t)
    with assms rows have "int (length (fst (removeHighCadence S (min_cadence_minutes P) t)))
                  < min_n_lc_points P" by (simp add: rejected_def)
    with Inr show ?thesis
      by (simp add: lc_step_rows[OF rows] try_body_def and_then_def dict_pop_def Let_def)
  qed
qed

lemma try_body_accepted:
  assumes "accepted S P lc"
  shows "\<exists>rows t. lc_rows lc = Inr rows \<and>
     try_body S P fgsl lc rows st =
       accept_source S P fgsl lc (removeHighCadence S (min_cadence_minutes P) t) st"
proof -
  from assms obtain rows t where rows: "lc_rows lc = Inr rows"
    and t: "and_then (unpack_tme rows) float_columns = Inr t"
    and n: "\<not> int (length (fst (removeHighCadence S (min_cadence_minutes P) t)))
               < min_n_lc_points P"
    by (auto simp: accepted_def split: sum.splits)
  from t n have "try_body S P fgsl lc rows st =
       accept_source S P fgsl lc (removeHighCadence S (min_cadence_minutes P) t) st"
    by (simp add: try_body_def Let_def)
  with rows show ?thesis by blast
qed

lemma lc_step_Inr_cases:
  assumes "lc_step S P fgsl lc st = Inr st'"
  shows "rejected S P lc \<or> accepted S P lc"
proof -
  have "readable lc" using assms lc_step_unreadable[of lc S P fgsl st] by auto
  thus ?thesis using readable_cases[of lc S P] by simp
qed

lemma lc_step_accepted:
  assumes "\<not> rejected S P lc" and "lc_step S P fgsl lc st = Inr st'"
  shows "keep_id_list st' = keep_id_list st @ [lc_id lc]"
    and "set (dict_keys (feature_dict st')) \<subseteq> set (dict_keys (feature_dict st))"
proof -
  from assms lc_step_Inr_cases have acc: "accepted S P lc" by blast
  from try_body_accepted[OF acc, of fgsl st] obtain rows t where
    rows: "lc_rows lc = Inr rows" and
    tb: "try_body S P fgsl lc rows st =
       accept_source S P fgsl lc (removeHighCadence S (min_cadence_minutes P) t) st" by blast
  obtain exc st1 where a: "accept_source S P fgsl lc (removeHighCadence S (min_cadence_minutes P) t) st = (exc, st1)"
    by (cases "accept_source S P fgsl lc (removeHighCadence S (min_cadence_minutes P) t) st")
  note p = accept_source_props[OF a]
  from assms(2) tb a have
    "st' = st1 \<or> (\<exists>fd. dict_pop (feature_dict st1) (lc_id lc) = Inr fd \<and> st' = st1\<lparr>feature_dict := fd\<rparr>)"
    by (auto simp: lc_step_rows[OF rows] and_then_def split: option.splits if_splits sum.splits)
  thus "keep_id_list st' = keep_id_list st @ [lc_id lc]"
    and "set (dict_keys (feature_dict st')) \<subseteq> set (dict_keys (feature_dict st))"
    using p(1,2) by (auto dest!: dict_pop_Inr simp: dict_keys_remove)
qed

lemma lc_step_accepted_total:
  assumes "accepted S P lc" and "lc_id lc \<in> set (dict_keys (feature_dict st))"
    and "lc_id lc \<in> set (dict_keys fgsl)"
  shows "\<exists>st'. lc_step S P fgsl lc st = Inr st' \<and>
           set (dict_keys (feature_dict st)) - {lc_id lc} \<subseteq> set (dict_keys (feature_dict st'))"
proof -
  from try_body_accepted[OF assms(1), of fgsl st] obtain rows t where
    rows: "lc_rows lc = Inr rows" and
    tb: "try_body S P fgsl lc rows st =
       accept_source S P fgsl lc (removeHighCadence S (min_cadence_minutes P) t) st" by blast
  obtain exc st1 where a: "accept_source S P fgsl lc (removeHighCadence S (min_cadence_minutes P) t) st = (exc, st1)"
    by (cases "accept_source S P fgsl lc (removeHighCadence S (min_cadence_minutes P) t) st")
  note p = accept_source_props[OF a]
  from p(3) assms(2,3) have "exc = None \<or> exc = Some ValueError" by auto
  thus ?thesis
  proof
    assume "exc = None"
    with tb a p(2) show ?thesis by (simp add: lc_step_rows[OF rows])
  next
    assume "exc = Some ValueError"
    with tb a p(2) assms(2) show ?thesis
      by (auto simp: lc_step_rows[OF rows] and_then_def dict_pop_def dict_keys_remove)
  qed
qed

lemma lc_step_keys:
  assumes "lc_step S P fgsl lc st = Inr st'"
  shows "set (dict_keys (feature_dict st')) \<subseteq> set (dict_keys (feature_dict st))"
    and "keep_id_list st' = keep_id_list st @ (if rejected S P lc then [] else [lc_id lc])"
    and "rejected S P lc \<Longrightarrow> lc_id lc \<notin> set (dict_keys (feature_dict st'))"
    and "rejected S P lc \<Longrightarrow> baseline st' = baseline st"
proof -
  show "set (dict_keys (feature_dict st')) \<subseteq> set (dict_keys (feature_dict st))"
    using assms lc_step_accepted(2)[OF _ assms] lc_step_rejected[of S P lc fgsl st]
    by (cases "rejected S P lc") (auto simp: dict_keys_remove split: if_splits)
  show "keep_id_list st' = keep_id_list st @ (if rejected S P lc then [] else [lc_id lc])"
    using assms lc_step_accepted(1)[OF _ assms] lc_step_rejected[of S P lc fgsl st]
    by (cases "rejected S P lc") (auto split: if_splits)
  show "rejected S P lc \<Longrightarrow> lc_id lc \<notin> set (dict_keys (feature_dict st'))"
    using assms lc_step_rejected[of S P lc fgsl st]
    by (auto simp: dict_keys_remove split: if_splits)
  show "rejected S P lc \<Longrightarrow> baseline st' = baseline st"
    using assms lc_step_rejected[of S P lc fgsl st] by (auto split: if_splits)
qed

lemma lc_loop_props:
  assumes "lc_loop S P fgsl lcs st = Inr st'"
  shows "set (dict_keys (feature_dict st')) \<subseteq> set (dict_keys (feature_dict st)) \<and>
         keep_id_list st' = keep_id_list st @ map lc_id (filter (\<lambda>lc. \<not> rejected S P lc) lcs) \<and>
         ((\<forall>lc \<in> set lcs. rejected S P lc) \<longrightarrow> baseline st' = baseline st) \<and>
         (\<forall>lc \<in> set lcs. rejected S P lc \<longrightarrow> lc_id lc \<notin> set (dict_keys (feature_dict st')))"
  using assms
proof (induction lcs arbitrary: st)
  case Nil
  then show ?case by simp
next
  case (Cons lc lcs)
  from Cons.prems obtain st1 where s1: "lc_step S P fgsl lc st = Inr st1"
    and r: "lc_loop S P fgsl lcs st1 = Inr st'"
    by (auto simp: and_then_def split: sum.splits)
  note k = lc_step_keys[OF s1]
  note ih = Cons.IH[OF r]
  have a: "set (dict_keys (feature_dict st')) \<subseteq> set (dict_keys (feature_dict st))"
    using ih k(1) by blast
  have b: "keep_id_list st' = keep_id_list st @ map lc_id (filter (\<lambda>lc. \<not> rejected S P lc) (lc # lcs))"
    using ih k(2) by simp
  have c: "(\<forall>x \<in> set (lc # lcs). rejected S P x) \<longrightarrow> baseline st' = baseline st"
    using ih k(4) by simp
  have d: "\<forall>x \<in> set (lc # lcs). rejected S P x \<longrightarrow> lc_id x \<notin> set (dict_keys (feature_dict st'))"
    using ih k(3) by auto
  from a b c d show ?case by blast
qed

lemma lc_loop_total:
  assumes "distinct (map lc_id lcs)"
    and "lc_id ` set lcs \<subseteq> set (dict_keys (feature_dict st))"
    and "lc_id ` set lcs \<subseteq> set (dict_keys fgsl)"
    and "\<forall>lc \<in> set lcs. readable lc"
  shows "\<exists>st'. lc_loop S P fgsl lcs st = Inr st'"
  using assms
proof (induction lcs arbitrary: st)
  case Nil
  then show ?case by simp
next
  case (Cons lc lcs)
  have "\<exists>st1. lc_step S P fgsl lc st = Inr st1 \<and>
           set (dict_keys (feature_dict st)) - {lc_id lc} \<subseteq> set (dict_keys (feature_dict st1))"
  proof (cases "rejected S P lc")
    case True
    with Cons.prems(2) show ?thesis by (simp add: lc_step_rejected dict_keys_remove)
  next
    case False
    with Cons.prems(4) have "accepted S P lc" using readable_cases[of lc S P] by auto
    with Cons.prems show ?thesis by (intro lc_step_accepted_total) auto
  qed
  then obtain st1 where s1: "lc_step S P fgsl lc st = Inr st1"
    and sub: "set (dict_keys (feature_dict st)) - {lc_id lc} \<subseteq> set (dict_keys (feature_dict st1))"
    by blast
  have "lc_id ` set lcs \<subseteq> set (dict_keys (feature_dict st1))"
  proof
    fix i assume i: "i \<in> lc_id ` set lcs"
    from Cons.prems(1) have "lc_id lc \<notin> lc_id ` set lcs" by simp
    with i have "i \<noteq> lc_id lc" by blast
    moreover from i Cons.prems(2) have "i \<in> set (dict_keys (feature_dict st))" by auto
    ultimately show "i \<in> set (dict_keys (feature_dict st1))" using sub by blast
  qed
  with Cons.IH[of st1] Cons.prems obtain st' where "lc_loop S P fgsl lcs st1 = Inr st'" by auto
  with s1 show ?case by (simp add: and_then_def)
qed








lemma generate_features_run:
  assumes "drop_close_bright_stars A (gaia_query S) (xmatch_radius_arcsec P) (limit P)
             (get_ids_loop S (field P) (ccd P) (quad P)) = Inr fgsl"
    and "lc_loop S P fgsl (get_lightcurves_via_ids S (dict_keys fgsl)) (loop_init fgsl) = Inr st"
  shows "generate_features A S P =
     (let ev2 = GetIds (field P) (ccd P) (quad P) #
                map ConeSearch (gaia_queries (get_ids_loop S (field P) (ccd P) (quad P)) (limit P))
                @ [GetLightcurves (dict_keys fgsl)]
      in if baseline st > 0 then later_stages S P ev2 st else finish P ev2 [])"
  using assms by (simp add: generate_features_def Let_def)


lemma ex_drop1: "drop_close_bright_stars flat_astro (gaia_query (svc [(1, src0)]))
    (xmatch_radius_arcsec (run_params True True)) (limit (run_params True True))
    (get_ids_loop (svc [(1, src0)]) (field (run_params True True)) (ccd (run_params True True))
       (quad (run_params True True))) = Inr [(1, src0)]"
  by (simp add: svc_def run_params_def ev_defs)

lemma ex_loop1: "\<exists>st. lc_loop (svc [(1, src0)]) (run_params True True) [(1, src0)]
     (get_lightcurves_via_ids (svc [(1, src0)]) (dict_keys [(1, src0)])) (loop_init [(1, src0)]) = Inr st
     \<and> baseline st = 10"
  by (simp add: svc_def run_params_def lcs_of_def pt_def loop_defs)

lemma ex_drop3: "drop_close_bright_stars flat_astro (gaia_query (svc [(3, src0)]))
    (xmatch_radius_arcsec (run_params True False)) (limit (run_params True False))
    (get_ids_loop (svc [(3, src0)]) (field (run_params True False)) (ccd (run_params True False))
       (quad (run_params True False))) = Inr [(3, src0)]"
  by (simp add: svc_def run_params_def ev_defs)

lemma ex_loop3: "lc_loop (svc [(3, src0)]) (run_params True False) [(3, src0)]
     (get_lightcurves_via_ids (svc [(3, src0)]) (dict_keys [(3, src0)])) (loop_init [(3, src0)])
   = Inr \<lparr>feature_dict = [], baseline = 0, keep_id_list = [], tme_collection = []\<rparr>"
  by (simp add: svc_def run_params_def lcs_of_def pt_def loop_defs)




section \<open>Claims on the feature pipeline\<close>

text \<open>
  Claim C2, as amended. With both period-search flags set, and the bright-star filter and the
  light-curve loop completed, \<^verbatim>\<open>generate_features\<close> raises \<^verbatim>\<open>KeyError\<close> when the largest
  baseline is positive, after the id query, the cone searches and the light-curve query
  have run and before any period search; when no baseline is positive it raises nothing and
  returns the empty table.
\<close>

theorem both_flags_error:
  assumes "doCPU P" and "doGPU P"
    and "drop_close_bright_stars A (gaia_query S) (xmatch_radius_arcsec P) (limit P)
             (get_ids_loop S (field P) (ccd P) (quad P)) = Inr fgsl"
    and "lc_loop S P fgsl (get_lightcurves_via_ids S (dict_keys fgsl)) (loop_init fgsl) = Inr st"
  shows "(0 < baseline st \<longrightarrow>
            generate_features A S P =
              (GetIds (field P) (ccd P) (quad P) #
               map ConeSearch (gaia_queries (get_ids_loop S (field P) (ccd P) (quad P)) (limit P))
               @ [GetLightcurves (dict_keys fgsl)],
               Inl KeyError)) \<and>
         (\<not> 0 < baseline st \<longrightarrow>
            snd (generate_features A S P) = Inr \<lparr>df_rows = [], df_attrs = provenance P\<rparr>)"
  using assms(1,2)
  by (simp add: generate_features_run[OF assms(3,4)] Let_def later_stages_def period_search_def
      finish_def)

theorem both_flags_error_witness:
  "generate_features flat_astro (svc [(1, src0)]) (run_params True True) =
     ([GetIds 296 1 1, ConeSearch [(1, (190, 20))], GetLightcurves [1]], Inl KeyError)"
proof -
  from ex_loop1 obtain st where
    st: "lc_loop (svc [(1, src0)]) (run_params True True) [(1, src0)]
     (get_lightcurves_via_ids (svc [(1, src0)]) (dict_keys [(1, src0)])) (loop_init [(1, src0)]) = Inr st"
    and b: "baseline st = 10" by blast
  have f: "doCPU (run_params True True)" "doGPU (run_params True True)"
    by (simp_all add: run_params_def)
  from both_flags_error[OF f ex_drop1 st] b show ?thesis
    by (simp add: run_params_def svc_def gaia_queries_def n_iterations_def id_slice_def
        batch_query_def dict_keys_def src0_def shift180_def)
qed

text \<open>
  Claim C2 as stated fails: with both flags set, three catalog requests have run when the
  error is raised for a Source with a ten-day light curve, and no error is raised at all for
  a Source whose light curve is too short.
\<close>

theorem both_flags_counterexample:
  "doCPU (run_params True True) \<and> doGPU (run_params True True) \<and>
   generate_features flat_astro (svc [(1, src0)]) (run_params True True) =
     ([GetIds 296 1 1, ConeSearch [(1, (190, 20))], GetLightcurves [1]], Inl KeyError) \<and>
   generate_features flat_astro (svc [(3, src0)]) (run_params True True) =
     ([GetIds 296 1 1, ConeSearch [(3, (190, 20))], GetLightcurves [3]],
      Inr \<lparr>df_rows = [], df_attrs = []\<rparr>)"
  by (simp add: generate_features_def later_stages_def period_search_def finish_def
      svc_def run_params_def lcs_of_def pt_def loop_defs ev_defs)
     (simp add: src0_def shift180_def)





text \<open>
  Claim C4. For a positive baseline and a positive \<^verbatim>\<open>samples_per_peak\<close> the grid is
  \<open>fmin + df * [0, \<dots>, nf - 1]\<close> with \<open>fmin = 2 / baseline\<close>, \<open>fmax\<close> 48 or 480,
  \<open>df = 1 / (samples_per_peak * baseline)\<close> and \<open>nf = \<lceil>(fmax - fmin) / df\<rceil>\<close>; it is strictly
  increasing and, when not empty, starts at \<open>fmin\<close>. For baseline 10 and 10 samples per
  peak in short-period mode it has 47980 points and starts at 0.2. Floats are taken as real
  numbers.
\<close>

theorem freq_grid_properties:
  assumes "0 < bl" and "0 < spp"
  shows "(let fmin = 2 / bl;
              fmax = (if long_period then 48 else 480);
              df = 1 / (real_of_int spp * bl);
              grid = freq_grid long_period spp bl
          in grid = map (\<lambda>k. fmin + df * real k) [0 ..< nat \<lceil>(fmax - fmin) / df\<rceil>] \<and>
             int (length grid) = max 0 \<lceil>(fmax - fmin) / df\<rceil> \<and>
             sorted_wrt (<) grid \<and>
             (grid \<noteq> [] \<longrightarrow> hd grid = fmin)) \<and>
         length (freq_grid False 10 10) = 47980 \<and>
         hd (freq_grid False 10 10) = 2 / 10"
proof -
  have df: "0 < 1 / (real_of_int spp * bl)" using assms by simp
  have inc: "sorted_wrt (<) (freq_grid long_period spp bl)"
    unfolding sorted_wrt_iff_nth_less
  proof (intro allI impI)
    fix i j assume "i < j" "j < length (freq_grid long_period spp bl)"
    thus "freq_grid long_period spp bl ! i < freq_grid long_period spp bl ! j"
      using df by (simp add: freq_grid_nth divide_strict_right_mono)
  qed
  have hd: "hd (freq_grid long_period spp bl) = 2 / bl" if "freq_grid long_period spp bl \<noteq> []"
    using that freq_grid_nth[of 0 long_period spp bl] by (simp add: hd_conv_nth)
  have n: "length (freq_grid False 10 10) = 47980" by (simp add: freq_grid_def Let_def)
  hence "freq_grid False 10 10 \<noteq> []" by auto
  hence h: "hd (freq_grid False 10 10) = 2 / 10"
    using freq_grid_nth[of 0 False 10 10] n by (simp add: hd_conv_nth)
  show ?thesis
    using inc hd n h by (simp add: Let_def) (simp add: freq_grid_def Let_def)
qed

theorem freq_grid_properties_witness:
  "(0 :: real) < 10 \<and> (0 :: int) < 10 \<and> sorted_wrt (<) (freq_grid False 10 10) \<and>
   length (freq_grid False 10 10) = 47980 \<and> hd (freq_grid False 10 10) = 1 / 5"
proof -
  have a: "(0 :: real) < 10" and b: "(0 :: int) < 10" by simp_all
  note t = freq_grid_properties[OF a b, of False, unfolded Let_def]
  from t have "sorted_wrt (<) (freq_grid False 10 10)" by blast
  moreover from t have "length (freq_grid False 10 10) = 47980" by blast
  moreover from t have "hd (freq_grid False 10 10) = 2 / 10" by blast
  ultimately show ?thesis by simp
qed




text \<open>
  Claim C8. When the loop over the light curves ends with no survivor, the baseline is still
  0 and \<^verbatim>\<open>generate_features\<close> returns the table without rows, with its provenance
  attributes, and raises nothing; the files written then record 0 Sources. The loop does
  end so when every light curve is rejected and the light curves have pairwise distinct ids
  that are keys of the feature dictionary.
\<close>

theorem no_survivors_empty_table:
  assumes "drop_close_bright_stars A (gaia_query S) (xmatch_radius_arcsec P) (limit P)
             (get_ids_loop S (field P) (ccd P) (quad P)) = Inr fgsl"
    and "lcs = get_lightcurves_via_ids S (dict_keys fgsl)"
  shows "(\<forall>st. lc_loop S P fgsl lcs (loop_init fgsl) = Inr st \<and> keep_id_list st = [] \<longrightarrow>
            baseline st = 0 \<and>
            generate_features A S P =
              (GetIds (field P) (ccd P) (quad P) #
               map ConeSearch (gaia_queries (get_ids_loop S (field P) (ccd P) (quad P)) (limit P))
               @ [GetLightcurves (dict_keys fgsl)]
               @ (if doNotSave P then [] else [WriteMeta 0, WriteParquet 0]),
               Inr \<lparr>df_rows = [], df_attrs = provenance P\<rparr>)) \<and>
         (distinct (map lc_id lcs) \<and> lc_id ` set lcs \<subseteq> set (dict_keys fgsl) \<and>
          (\<forall>lc \<in> set lcs. rejected S P lc) \<longrightarrow>
            generate_features A S P =
              (GetIds (field P) (ccd P) (quad P) #
               map ConeSearch (gaia_queries (get_ids_loop S (field P) (ccd P) (quad P)) (limit P))
               @ [GetLightcurves (dict_keys fgsl)]
               @ (if doNotSave P then [] else [WriteMeta 0, WriteParquet 0]),
               Inr \<lparr>df_rows = [], df_attrs = provenance P\<rparr>))"
proof -
  have main: "baseline st = 0 \<and>
            generate_features A S P =
              (GetIds (field P) (ccd P) (quad P) #
               map ConeSearch (gaia_queries (get_ids_loop S (field P) (ccd P) (quad P)) (limit P))
               @ [GetLightcurves (dict_keys fgsl)]
               @ (if doNotSave P then [] else [WriteMeta 0, WriteParquet 0]),
               Inr \<lparr>df_rows = [], df_attrs = provenance P\<rparr>)"
    if st: "lc_loop S P fgsl lcs (loop_init fgsl) = Inr st" and k: "keep_id_list st = []" for st
  proof -
    note p = lc_loop_props[OF st]
    from p k have "filter (\<lambda>lc. \<not> rejected S P lc) lcs = []"
      by (simp add: loop_init_def)
    hence "\<forall>lc \<in> set lcs. rejected S P lc" by (simp add: filter_empty_conv)
    with p have b: "baseline st = 0" by (simp add: loop_init_def)
    thus ?thesis
      by (simp add: generate_features_run[OF assms(1) st[unfolded assms(2)]] Let_def finish_def)
  qed
  have total: "generate_features A S P =
              (GetIds (field P) (ccd P) (quad P) #
               map ConeSearch (gaia_queries (get_ids_loop S (field P) (ccd P) (quad P)) (limit P))
               @ [GetLightcurves (dict_keys fgsl)]
               @ (if doNotSave P then [] else [WriteMeta 0, WriteParquet 0]),
               Inr \<lparr>df_rows = [], df_attrs = provenance P\<rparr>)"
    if d: "distinct (map lc_id lcs)" and s: "lc_id ` set lcs \<subseteq> set (dict_keys fgsl)"
      and r: "\<forall>lc \<in> set lcs. rejected S P lc"
  proof -
    from r have "\<forall>lc \<in> set lcs. readable lc" by (simp add: readable_cases[of _ S P])
    with lc_loop_total[OF d, of "loop_init fgsl" fgsl S P] s
    obtain st where st: "lc_loop S P fgsl lcs (loop_init fgsl) = Inr st"
      by (auto simp: loop_init_def)
    from lc_loop_props[OF st] r have "keep_id_list st = []"
      by (simp add: loop_init_def filter_empty_conv)
    with main[OF st] show ?thesis by simp
  qed
  from main total show ?thesis by blast
qed

theorem no_survivors_empty_table_witness:
  "generate_features flat_astro (svc [(3, src0)]) (run_params True False) =
     ([GetIds 296 1 1, ConeSearch [(3, (190, 20))], GetLightcurves [3]],
      Inr \<lparr>df_rows = [], df_attrs = []\<rparr>)"
proof -
  have k: "keep_id_list \<lparr>feature_dict = [], baseline = 0, keep_id_list = [],
                         tme_collection = []\<rparr> = []" by simp
  from no_survivors_empty_table[OF ex_drop3 refl, THEN conjunct1, rule_format, OF conjI, OF ex_loop3 k]
  show ?thesis
    by (simp add: run_params_def svc_def gaia_queries_def n_iterations_def id_slice_def
        batch_query_def dict_keys_def src0_def shift180_def)
qed

end
